theory Spec2Isabelle
  imports Main
begin

section \<open>Go values used by package control\<close>

text \<open>
  A Go \<^verbatim>\<open>error\<close> is observed by this package only through its message
  (\<^verbatim>\<open>e.Error()\<close>), and \<^verbatim>\<open>errors.New\<close> builds one from a string. A nil
  error is \<open>None\<close> of \<open>go_error option\<close>.
\<close>

datatype go_error = errors_New string

fun Error :: "go_error \<Rightarrow> string" where
  "Error (errors_New s) = s"

text \<open>
  Go's \<^verbatim>\<open>int\<close> is a signed machine integer, 64 bits wide on the 64-bit platforms the
  daemon is built for; arithmetic wraps around in two's complement. \<open>go_int\<close> brings a
  mathematical integer back into that range.
\<close>

definition go_int :: "int \<Rightarrow> int" where
  "go_int x = (x + 2 ^ 63) mod 2 ^ 64 - 2 ^ 63"

text \<open>\<^verbatim>\<open>time.Duration\<close> counts nanoseconds; \<^verbatim>\<open>time.Second\<close> is 10^9 of them.\<close>

type_synonym Duration = int

definition time_Second :: Duration where
  "time_Second = 1000000000"

text \<open>
  Runtime panics of the Go operations used here (closing a nil or a closed channel,
  calling a method on a nil interface value), and \<^verbatim>\<open>panic(err)\<close> with an error
  value.
\<close>

datatype panic =
  CloseOfNilChannel | CloseOfClosedChannel | NilPointerDereference | PanicError go_error

section \<open>runner.go: constants\<close>

definition HandlerRegistrationName :: string where
  "HandlerRegistrationName = ''control.runner''"

datatype availablePluginState = PluginRunning | PluginStopped | PluginDisabled

definition MaximumRunningPlugins :: int where
  "MaximumRunningPlugins = 3"

section \<open>runner.go: idCounter\<close>

text \<open>
  \<^verbatim>\<open>type idCounter struct { id int; mutex *sync.Mutex }\<close>. The mutex makes each call
  of \<^verbatim>\<open>Next\<close> atomic, so calls are modelled one after the other. The field
  \<^verbatim>\<open>id\<close> is named \<open>id_val\<close> here.
\<close>

record idCounter =
  id_val :: int

text \<open>\<^verbatim>\<open>&idCounter{mutex: &sync.Mutex{}}\<close> in \<^verbatim>\<open>newRunner\<close>: the id is Go's zero value.\<close>

definition new_idCounter :: idCounter where
  "new_idCounter = \<lparr>id_val = 0\<rparr>"

text \<open>\<^verbatim>\<open>i.id++; return i.id\<close>: the returned value and the counter after the call.\<close>

definition Next :: "idCounter \<Rightarrow> int \<times> idCounter" where
  "Next i = (let i' = i\<lparr>id_val := go_int (id_val i + 1)\<rparr> in (id_val i', i'))"

text \<open>\<open>n\<close> successive calls of \<^verbatim>\<open>Next\<close>: the values returned, in call order.\<close>

fun Next_calls :: "nat \<Rightarrow> idCounter \<Rightarrow> int list \<times> idCounter" where
  "Next_calls 0 i = ([], i)"
| "Next_calls (Suc n) i =
     (case Next i of (v, i') \<Rightarrow>
        (case Next_calls n i' of (vs, i'') \<Rightarrow> (v # vs, i'')))"

section \<open>Plugin instances, pools and the registry\<close>

text \<open>
  The handshake response of package plugin (declared outside these files).
  \<^verbatim>\<open>startPlugin\<close> reads \<^verbatim>\<open>resp.State\<close>, compares it with
  \<^verbatim>\<open>plugin.PluginSuccess\<close>, and reads \<^verbatim>\<open>resp.ErrorMessage\<close>.
\<close>

datatype PluginResponseState = PluginSuccess | PluginFailure

record Response =
  State :: PluginResponseState
  ErrorMessage :: string

text \<open>
  The process transport, \<^verbatim>\<open>type executablePlugin interface\<close>. A handle is given by
  what its process answers in the one start sequence run on it: the result of
  \<^verbatim>\<open>Start()\<close>, the result of \<^verbatim>\<open>Kill()\<close>, and the pair
  \<^verbatim>\<open>(*plugin.Response, error)\<close> that \<^verbatim>\<open>WaitForResponse\<close> returns for a
  given timeout (either component may be nil).
\<close>

record executablePlugin =
  Start :: "go_error option"
  Kill :: "go_error option"
  WaitForResponse :: "Duration \<Rightarrow> Response option \<times> go_error option"

datatype PluginType = CollectorPluginType | PublisherPluginType | ProcessorPluginType

text \<open>The client of a running plugin: \<^verbatim>\<open>Ping()\<close> returns an error or nil.\<close>

record PluginClient =
  Ping :: "go_error option"

text \<open>
  Modelled from the spec: \<^verbatim>\<open>availablePlugin\<close> (its declaration is not in these
  files). The spec's data model gives it an integer ID, a State, the Key of the plugin
  it instantiates (name, version and category; here the category is the field Type and
  Key the string the pools are looked up by) and a Client.
\<close>

record availablePlugin =
  ID :: int
  State :: availablePluginState
  Type :: PluginType
  Key :: string
  Client :: PluginClient

text \<open>
  Modelled from the spec: \<^verbatim>\<open>availablePluginPool\<close>, the instances sharing one key,
  with its operation \<^verbatim>\<open>Count()\<close>; a nil pool pointer is \<open>None\<close>.
\<close>

type_synonym availablePluginPool = "availablePlugin list"

definition Count :: "availablePluginPool \<Rightarrow> int" where
  "Count pool = int (length pool)"

text \<open>
  Modelled from the spec: the registry \<^verbatim>\<open>availablePlugins\<close>, three tables of pools
  (collectors, publishers, processors) looked up by key. \<^verbatim>\<open>GetPluginPool\<close> returns
  the pool or nil; \<^verbatim>\<open>Insert\<close> puts an instance into the pool of its key in the
  table of its category, creating the pool when there is none.
\<close>

type_synonym apCollection = "string \<rightharpoonup> availablePluginPool"

record availablePlugins =
  Collectors :: apCollection
  Publishers :: apCollection
  Processors :: apCollection

definition newAvailablePlugins :: availablePlugins where
  "newAvailablePlugins =
     \<lparr>Collectors = Map.empty, Publishers = Map.empty, Processors = Map.empty\<rparr>"

definition GetPluginPool :: "apCollection \<Rightarrow> string \<Rightarrow> availablePluginPool option" where
  "GetPluginPool c k = c k"

definition Add :: "apCollection \<Rightarrow> availablePlugin \<Rightarrow> apCollection" where
  "Add c ap =
     (case c (Key ap) of
        None \<Rightarrow> c(Key ap \<mapsto> [ap])
      | Some pool \<Rightarrow> c(Key ap \<mapsto> pool @ [ap]))"

definition Insert :: "availablePlugins \<Rightarrow> availablePlugin \<Rightarrow> availablePlugins" where
  "Insert a ap =
     (case Type ap of
        CollectorPluginType \<Rightarrow> a\<lparr>Collectors := Add (Collectors a) ap\<rparr>
      | PublisherPluginType \<Rightarrow> a\<lparr>Publishers := Add (Publishers a) ap\<rparr>
      | ProcessorPluginType \<Rightarrow> a\<lparr>Processors := Add (Processors a) ap\<rparr>)"

section \<open>runner.go: checkPool\<close>

text \<open>
  A call of \<^verbatim>\<open>logger.Debugf(tag, format, args...)\<close>: the tag, the format string and
  the arguments, unformatted.
\<close>

datatype log_arg = ArgString string | ArgInt int

datatype log_entry = Debugf string string "log_arg list"

text \<open>
  \<^verbatim>\<open>func checkPool(pool *availablePluginPool, key string) bool\<close>: the boolean
  returned, and the entries the call writes to the log.
\<close>

definition checkPool :: "availablePluginPool option \<Rightarrow> string \<Rightarrow> bool \<times> log_entry list" where
  "checkPool pool key =
     (case pool of
        None \<Rightarrow>
          (True, [Debugf ''runner.events''
             ''not enough available plugins (%d) running for (%s) need %d''
             [ArgInt 0, ArgString key, ArgInt MaximumRunningPlugins]])
      | Some p \<Rightarrow>
          if Count p \<ge> MaximumRunningPlugins then
            (False, [Debugf ''runner.events''
               ''(%s) has %d available plugin running (need %d)''
               [ArgString key, ArgInt (Count p), ArgInt MaximumRunningPlugins]])
          else
            (True, [Debugf ''runner.events''
               ''not enough available plugins (%d) running for (%s) need %d''
               [ArgInt (Count p), ArgString key, ArgInt MaximumRunningPlugins]]))"

section \<open>runner.go: the runner and its collaborators\<close>

text \<open>
  A loaded plugin as the plugin manager hands it out: what its methods
  \<^verbatim>\<open>Name()\<close>, \<^verbatim>\<open>Version()\<close>, \<^verbatim>\<open>TypeName()\<close> and \<^verbatim>\<open>Key()\<close> return, and its
  field \<^verbatim>\<open>Path\<close>.
\<close>

record loadedPlugin =
  Name :: string
  Version :: int
  TypeName :: string
  Key :: string
  Path :: string

text \<open>
  The interface \<^verbatim>\<open>managesPlugins\<close>: \<^verbatim>\<open>LoadedPlugins()\<close> is given by the sequence of
  loaded plugins its \<^verbatim>\<open>Next()\<close>/\<^verbatim>\<open>Item()\<close> iteration yields, \<^verbatim>\<open>GenerateArgs\<close> maps a
  path to launch arguments. The interface \<^verbatim>\<open>catalogsMetrics\<close>: \<^verbatim>\<open>Get\<close> resolves a
  namespace and version to the loaded plugin behind the metric, or fails.
\<close>

record managesPlugins =
  LoadedPlugins :: "loadedPlugin list"
  GenerateArgs :: "string \<Rightarrow> string list"

record catalogsMetrics =
  Get :: "string list \<Rightarrow> int \<Rightarrow> go_error + loadedPlugin"

section \<open>monitor.go\<close>

datatype monitorState = MonitorStopped | MonitorStarted

text \<open>
  The channel \<^verbatim>\<open>quit chan struct{}\<close>: nobody sends on it, so an allocated channel is
  either open or closed; the nil channel is \<open>None\<close>.
\<close>

datatype chan = ChanOpen | ChanClosed

record monitor =
  State :: monitorState
  quit :: "chan option"

definition newMonitor :: monitor where
  "newMonitor = \<lparr>State = MonitorStopped, quit = None\<rparr>"

text \<open>
  \<^verbatim>\<open>Start\<close>: allocate the channel, launch the background loop, set the state. The
  loop is \<open>loop_select\<close> below.
\<close>

definition monitor_Start :: "monitor \<Rightarrow> monitor" where
  "monitor_Start m = (m\<lparr>quit := Some ChanOpen\<rparr>)\<lparr>monitor.State := MonitorStarted\<rparr>"

text \<open>Go's builtin \<^verbatim>\<open>close\<close>: it panics on a nil channel and on a closed one.\<close>

definition close_chan :: "chan option \<Rightarrow> panic + chan option" where
  "close_chan c =
     (case c of
        None \<Rightarrow> Inl CloseOfNilChannel
      | Some ChanClosed \<Rightarrow> Inl CloseOfClosedChannel
      | Some ChanOpen \<Rightarrow> Inr (Some ChanClosed))"

text \<open>\<^verbatim>\<open>Stop\<close>: \<^verbatim>\<open>close(m.quit)\<close>, then \<^verbatim>\<open>m.State = MonitorStopped\<close>.\<close>

definition monitor_Stop :: "monitor \<Rightarrow> panic + monitor" where
  "monitor_Stop m =
     (case close_chan (quit m) of
        Inl p \<Rightarrow> Inl p
      | Inr q \<Rightarrow> Inr ((m\<lparr>quit := q\<rparr>)\<lparr>monitor.State := MonitorStopped\<rparr>))"

text \<open>
  One round of the \<^verbatim>\<open>select\<close> in the background loop. On a tick the loop dispatches
  health checks and goes on; the monitor is untouched. The quit case can only be taken
  once the channel is closed: then the loop stops the ticker, sets the state and
  returns. \<open>None\<close>: the case cannot be taken.
\<close>

datatype loop_event = Tick | Quit

datatype loop_status = Looping | Exited

definition loop_select :: "loop_event \<Rightarrow> monitor \<Rightarrow> (monitor \<times> loop_status) option" where
  "loop_select ev m =
     (case ev of
        Tick \<Rightarrow> Some (m, Looping)
      | Quit \<Rightarrow>
          if quit m = Some ChanClosed
          then Some (m\<lparr>monitor.State := MonitorStopped\<rparr>, Exited)
          else None)"

text \<open>
  The background loop run on a schedule of events: an event that cannot be taken is
  passed over, and nothing happens once the loop has returned. This is the one loop
  of the latest \<^verbatim>\<open>Start\<close>, reading the monitor's current channel; a loop left
  over from an earlier \<^verbatim>\<open>Start\<close>, which still waits on the channel of that
  start, is not part of the model.
\<close>

fun loop_run :: "loop_event list \<Rightarrow> monitor \<Rightarrow> monitor" where
  "loop_run [] m = m"
| "loop_run (ev # evs) m =
     (case loop_select ev m of
        None \<Rightarrow> loop_run evs m
      | Some (m', Looping) \<Rightarrow> loop_run evs m'
      | Some (m', Exited) \<Rightarrow> m')"

section \<open>runner.go: runner\<close>

text \<open>
  \<^verbatim>\<open>type runner struct\<close>. The delegates are references into the event bus, whose
  state is passed to \<^verbatim>\<open>Start\<close> and \<^verbatim>\<open>Stop\<close> explicitly; the two interface fields
  are nil until their setters are called. The emitter is only handed on to
  \<^verbatim>\<open>newAvailablePlugin\<close> and the mutex only serialises the event handler; neither is
  a field here.
\<close>

type_synonym Delegator = nat

record runner =
  delegates :: "Delegator list"
  monitor :: monitor
  availablePlugins :: availablePlugins
  metricCatalog :: "catalogsMetrics option"
  pluginManager :: "managesPlugins option"
  apIdCounter :: idCounter

definition newRunner :: runner where
  "newRunner =
     \<lparr>delegates = [], monitor = newMonitor, availablePlugins = newAvailablePlugins,
      metricCatalog = None, pluginManager = None, apIdCounter = new_idCounter\<rparr>"

definition SetMetricCatalog :: "runner \<Rightarrow> catalogsMetrics \<Rightarrow> runner" where
  "SetMetricCatalog r c = r\<lparr>metricCatalog := Some c\<rparr>"

definition SetPluginManager :: "runner \<Rightarrow> managesPlugins \<Rightarrow> runner" where
  "SetPluginManager r m = r\<lparr>pluginManager := Some m\<rparr>"

definition AddDelegates :: "runner \<Rightarrow> Delegator list \<Rightarrow> runner" where
  "AddDelegates r ds = r\<lparr>delegates := delegates r @ ds\<rparr>"

text \<open>
  The loop of \<^verbatim>\<open>Start\<close>: \<^verbatim>\<open>del.RegisterHandler(HandlerRegistrationName, r)\<close> on each
  delegate in turn, returning at the first error. \<open>reg\<close> is the event bus's
  \<^verbatim>\<open>RegisterHandler\<close>: for a delegate, a name and the bus state, the error (or nil) and
  the bus state after the call.
\<close>

fun registerHandlers ::
  "(Delegator \<Rightarrow> string \<Rightarrow> 'w \<Rightarrow> go_error option \<times> 'w) \<Rightarrow> Delegator list \<Rightarrow> 'w
     \<Rightarrow> go_error option \<times> 'w" where
  "registerHandlers reg [] w = (None, w)"
| "registerHandlers reg (del # dels) w =
     (case reg del HandlerRegistrationName w of
        (Some e, w') \<Rightarrow> (Some e, w')
      | (None, w') \<Rightarrow> registerHandlers reg dels w')"

definition runner_Start ::
  "(Delegator \<Rightarrow> string \<Rightarrow> 'w \<Rightarrow> go_error option \<times> 'w) \<Rightarrow> runner \<Rightarrow> 'w
     \<Rightarrow> go_error option \<times> runner \<times> 'w" where
  "runner_Start reg r w =
     (if length (delegates r) = 0
      then (Some (errors_New ''No delegates added before called Start()''), r, w)
      else
        (case registerHandlers reg (delegates r) w of
           (Some e, w') \<Rightarrow> (Some e, r, w')
         | (None, w') \<Rightarrow> (None, r\<lparr>monitor := monitor_Start (monitor r)\<rparr>, w')))"

text \<open>
  The loop of \<^verbatim>\<open>Stop\<close>: \<^verbatim>\<open>del.UnregisterHandler(HandlerRegistrationName)\<close> on each
  delegate, appending every error to \<^verbatim>\<open>errs\<close>.
\<close>

fun unregisterHandlers ::
  "(Delegator \<Rightarrow> string \<Rightarrow> 'w \<Rightarrow> go_error option \<times> 'w) \<Rightarrow> Delegator list \<Rightarrow> 'w
     \<Rightarrow> go_error list \<Rightarrow> go_error list \<times> 'w" where
  "unregisterHandlers unreg [] w errs = (errs, w)"
| "unregisterHandlers unreg (del # dels) w errs =
     (case unreg del HandlerRegistrationName w of
        (Some e, w') \<Rightarrow> unregisterHandlers unreg dels w' (errs @ [e])
      | (None, w') \<Rightarrow> unregisterHandlers unreg dels w' errs)"

text \<open>
  \<^verbatim>\<open>Stop\<close>: \<^verbatim>\<open>var errs []error\<close>, stop the monitor (a panic there leaves the
  function at once), then the loop. The nil slice is the empty list.
\<close>

definition runner_Stop ::
  "(Delegator \<Rightarrow> string \<Rightarrow> 'w \<Rightarrow> go_error option \<times> 'w) \<Rightarrow> runner \<Rightarrow> 'w
     \<Rightarrow> panic + (go_error list \<times> runner \<times> 'w)" where
  "runner_Stop unreg r w =
     (case monitor_Stop (monitor r) of
        Inl p \<Rightarrow> Inl p
      | Inr m \<Rightarrow>
          (case unregisterHandlers unreg (delegates r) w [] of
             (errs, w') \<Rightarrow> Inr (errs, r\<lparr>monitor := m\<rparr>, w')))"

section \<open>runner.go: startPlugin\<close>

text \<open>
  \<^verbatim>\<open>startPlugin\<close> returns \<^verbatim>\<open>(nil, err)\<close> or \<^verbatim>\<open>(ap, nil)\<close>: a sum, with the runner
  after the call. \<open>newAvailablePlugin\<close> is the constructor of the same name (declared
  outside these files), applied to the response and the fresh id; it returns an error
  or the instance. The calls of the logger are left out, here and in the functions
  of the runner below and above; only \<^verbatim>\<open>checkPool\<close> carries its log entries.
\<close>

definition startPlugin ::
  "(Response \<Rightarrow> int \<Rightarrow> go_error + availablePlugin) \<Rightarrow> runner \<Rightarrow> executablePlugin
     \<Rightarrow> (go_error + availablePlugin) \<times> runner" where
  "startPlugin newAvailablePlugin r p =
     (case Start p of
        Some e \<Rightarrow> (Inl (errors_New (''error while starting plugin: '' @ Error e)), r)
      | None \<Rightarrow>
          (case WaitForResponse p (time_Second * 3) of
             (resp, Some err) \<Rightarrow>
               (Inl (errors_New (''error while waiting for response: '' @ Error err)), r)
           | (None, None) \<Rightarrow>
               (Inl (errors_New ''no reponse object returned from plugin''), r)
           | (Some resp, None) \<Rightarrow>
               if Response.State resp \<noteq> PluginSuccess
               then (Inl (errors_New
                           (''plugin could not start error: '' @ ErrorMessage resp)), r)
               else
                 (case Next (apIdCounter r) of
                    (n, c) \<Rightarrow>
                      (case newAvailablePlugin resp n of
                         Inl err \<Rightarrow> (Inl err, r\<lparr>apIdCounter := c\<rparr>)
                       | Inr ap \<Rightarrow>
                           (case Ping (Client ap) of
                              Some err \<Rightarrow> (Inl err, r\<lparr>apIdCounter := c\<rparr>)
                            | None \<Rightarrow>
                                (Inr ap,
                                 r\<lparr>apIdCounter := c,
                                   availablePlugins := Insert (availablePlugins r) ap\<rparr>))))))"

section \<open>runner.go: HandleGomitEvent\<close>

text \<open>
  The body of a \<^verbatim>\<open>gomit.Event\<close>, as the type switch sees it: a publisher
  subscription (plugin name and version), a metric subscription (namespace and
  version), or anything else.
\<close>

datatype EventBody =
  PublisherSubscriptionEvent string int
| MetricSubscriptionEvent "string list" int
| OtherBody

record Event =
  Body :: EventBody

text \<open>
  What a run of the handler does outside the runner, in order: an admission check for
  a loaded plugin with its result, a call of \<^verbatim>\<open>startPlugin\<close> on the handle built
  for a loaded plugin, a \<^verbatim>\<open>fmt.Println\<close> of an error. The handler either returns or
  panics.
\<close>

datatype action = Checked loadedPlugin bool | Started loadedPlugin | Printed go_error

datatype ending = Returned | Panicked panic

text \<open>
  The loop of the publisher case over the loaded plugins still to come. \<open>nep\<close> is
  \<^verbatim>\<open>plugin.NewExecutablePlugin\<close> (arguments and path to a handle and an error),
  \<open>nap\<close> is \<^verbatim>\<open>newAvailablePlugin\<close>, \<open>pm\<close> the plugin manager.
\<close>

fun publisherLoop ::
  "(string list \<Rightarrow> string \<Rightarrow> executablePlugin \<times> go_error option)
     \<Rightarrow> (Response \<Rightarrow> int \<Rightarrow> go_error + availablePlugin)
     \<Rightarrow> managesPlugins \<Rightarrow> string \<Rightarrow> int \<Rightarrow> loadedPlugin list \<Rightarrow> runner
     \<Rightarrow> ending \<times> runner \<times> action list" where
  "publisherLoop nep nap pm PluginName PluginVersion [] r = (Returned, r, [])"
| "publisherLoop nep nap pm PluginName PluginVersion (lp # lps) r =
     (if TypeName lp = ''publisher'' \<and> Name lp = PluginName \<and> Version lp = PluginVersion
      then
        (let pool = GetPluginPool (Publishers (availablePlugins r)) (loadedPlugin.Key lp);
             ok = fst (checkPool pool (loadedPlugin.Key lp))
         in
           if \<not> ok then (Returned, r, [Checked lp False])
           else
             (case nep (GenerateArgs pm (Path lp)) (Path lp) of
                (ePlugin, err) \<Rightarrow>
                  (case startPlugin nap r ePlugin of
                     (Inl err', r') \<Rightarrow>
                       (Panicked (PanicError err'), r',
                        [Checked lp True, Started lp, Printed err'])
                   | (Inr ap, r') \<Rightarrow>
                       (case publisherLoop nep nap pm PluginName PluginVersion lps r' of
                          (e, r'', acts) \<Rightarrow>
                            (e, r'', Checked lp True # Started lp # acts)))))
      else publisherLoop nep nap pm PluginName PluginVersion lps r)"

definition HandleGomitEvent ::
  "(string list \<Rightarrow> string \<Rightarrow> executablePlugin \<times> go_error option)
     \<Rightarrow> (Response \<Rightarrow> int \<Rightarrow> go_error + availablePlugin)
     \<Rightarrow> runner \<Rightarrow> Event \<Rightarrow> ending \<times> runner \<times> action list" where
  "HandleGomitEvent nep nap r e =
     (case Body e of
        PublisherSubscriptionEvent PluginName PluginVersion \<Rightarrow>
          (case pluginManager r of
             None \<Rightarrow> (Panicked NilPointerDereference, r, [])
           | Some pm \<Rightarrow>
               publisherLoop nep nap pm PluginName PluginVersion (LoadedPlugins pm) r)
      | MetricSubscriptionEvent MetricNamespace Ver \<Rightarrow>
          (case metricCatalog r of
             None \<Rightarrow> (Panicked NilPointerDereference, r, [])
           | Some mc \<Rightarrow>
               (case Get mc MetricNamespace Ver of
                  Inl err \<Rightarrow> (Returned, r, [Printed err])
                | Inr lp \<Rightarrow>
                    (let pool = GetPluginPool (Collectors (availablePlugins r))
                                  (loadedPlugin.Key lp);
                         ok = fst (checkPool pool (loadedPlugin.Key lp))
                     in
                       if \<not> ok then (Returned, r, [Checked lp False])
                       else
                         (case pluginManager r of
                            None \<Rightarrow> (Panicked NilPointerDereference, r, [Checked lp True])
                          | Some pm \<Rightarrow>
                              (case nep (GenerateArgs pm (Path lp)) (Path lp) of
                                 (ePlugin, err) \<Rightarrow>
                                   (let printed = (case err of
                                                     Some e' \<Rightarrow> [Printed e']
                                                   | None \<Rightarrow> [])
                                    in
                                      (case startPlugin nap r ePlugin of
                                         (Inl err', r') \<Rightarrow>
                                           (Panicked (PanicError err'), r',
                                            Checked lp True # printed @ [Started lp])
                                       | (Inr ap, r') \<Rightarrow>
                                           (Returned, r',
                                            Checked lp True # printed @ [Started lp]))))))))
      | OtherBody \<Rightarrow> (Returned, r, []))"

section \<open>Notions used to state the properties\<close>

text \<open>
  Calling an event-bus operation \<open>f\<close> (\<^verbatim>\<open>RegisterHandler\<close> or
  \<^verbatim>\<open>UnregisterHandler\<close>) with the handler name on every delegate of a list, in order
  and whatever the calls return: \<open>bus_after\<close> is the bus state after the last call,
  \<open>call_result\<close> is what the call on delegate number \<open>i\<close> returns.
\<close>

definition bus_after ::
  "(Delegator \<Rightarrow> string \<Rightarrow> 'w \<Rightarrow> go_error option \<times> 'w) \<Rightarrow> Delegator list \<Rightarrow> 'w \<Rightarrow> 'w" where
  "bus_after f ds w = foldl (\<lambda>w d. snd (f d HandlerRegistrationName w)) w ds"

definition call_result ::
  "(Delegator \<Rightarrow> string \<Rightarrow> 'w \<Rightarrow> go_error option \<times> 'w) \<Rightarrow> Delegator list \<Rightarrow> 'w \<Rightarrow> nat
     \<Rightarrow> go_error option" where
  "call_result f ds w i = fst (f (ds ! i) HandlerRegistrationName (bus_after f (take i ds) w))"

text \<open>
  The condition under which the publisher case takes up a loaded plugin, and the
  admission check it then makes on the runner's publisher pools.
\<close>

definition is_match :: "string \<Rightarrow> int \<Rightarrow> loadedPlugin \<Rightarrow> bool" where
  "is_match PluginName PluginVersion lp \<longleftrightarrow>
     TypeName lp = ''publisher'' \<and> Name lp = PluginName \<and> Version lp = PluginVersion"

definition admitted :: "runner \<Rightarrow> loadedPlugin \<Rightarrow> bool" where
  "admitted r lp \<longleftrightarrow>
     fst (checkPool (GetPluginPool (Publishers (availablePlugins r)) (loadedPlugin.Key lp))
            (loadedPlugin.Key lp))"

section \<open>Example inputs\<close>

text \<open>
  Values on which the theorems below are evaluated: a publisher plugin "mock" in
  version 1 whose process starts, answers the handshake with success and answers the
  ping; an unrelated collector; and a runner with a plugin manager holding given
  loaded plugins and a publisher pool for the key "mock:1" holding instances with
  given ids.
\<close>

abbreviation mock_response :: Response where
  "mock_response \<equiv> \<lparr>Response.State = PluginSuccess, ErrorMessage = []\<rparr>"

abbreviation mock_handle :: executablePlugin where
  "mock_handle \<equiv>
     \<lparr>Start = None, Kill = None, WaitForResponse = (\<lambda>d. (Some mock_response, None))\<rparr>"

abbreviation mock_instance :: "int \<Rightarrow> availablePlugin" where
  "mock_instance i \<equiv>
     \<lparr>ID = i, availablePlugin.State = PluginRunning, Type = PublisherPluginType,
      availablePlugin.Key = ''mock:1'', Client = \<lparr>Ping = None\<rparr>\<rparr>"

abbreviation mock_publisher :: "string \<Rightarrow> loadedPlugin" where
  "mock_publisher path \<equiv>
     \<lparr>Name = ''mock'', Version = 1, TypeName = ''publisher'',
      loadedPlugin.Key = ''mock:1'', Path = path\<rparr>"

abbreviation cpu_collector :: loadedPlugin where
  "cpu_collector \<equiv>
     \<lparr>Name = ''cpu'', Version = 1, TypeName = ''collector'',
      loadedPlugin.Key = ''cpu:1'', Path = ''/plugins/cpu''\<rparr>"

abbreviation mock_runner :: "loadedPlugin list \<Rightarrow> int list \<Rightarrow> runner" where
  "mock_runner lps ids \<equiv>
     newRunner
       \<lparr>pluginManager := Some \<lparr>LoadedPlugins = lps, GenerateArgs = (\<lambda>path. [])\<rparr>,
        availablePlugins :=
          newAvailablePlugins\<lparr>Publishers := [''mock:1'' \<mapsto> map mock_instance ids]\<rparr>,
        apIdCounter := \<lparr>id_val = int (length ids)\<rparr>\<rparr>"

section \<open>The admission check\<close>

text \<open>
  Claim C2. For every pool (a nil pool included) and every key, \<^verbatim>\<open>checkPool\<close> returns
  true exactly when the pool is nil or its count is below 3, and false exactly when the
  pool exists and its count is at least 3. The result is a boolean, there is no error
  to return; each call, a denying one too, writes one log entry.
\<close>

theorem checkPool_admission:
  "(fst (checkPool pool key) \<longleftrightarrow> pool = None \<or> (\<exists>p. pool = Some p \<and> Count p < 3))
   \<and> (\<not> fst (checkPool pool key) \<longleftrightarrow> (\<exists>p. pool = Some p \<and> 3 \<le> Count p))
   \<and> (\<exists>entry. snd (checkPool pool key) = [entry])"
  by (cases pool) (auto simp: checkPool_def MaximumRunningPlugins_def)

section \<open>The identity allocator\<close>

text \<open>Wrap-around commutes with adding: only the last \<open>go_int\<close> counts.\<close>

lemma wrap_add: "((a mod c) - m + b + m) mod c = (a + b) mod (c::int)"
proof -
  have "(a mod c) - m + b + m = a mod c + b" by simp
  then show ?thesis by (simp only: mod_add_left_eq)
qed

lemma go_int_add: "go_int (go_int x + y) = go_int (x + y)"
proof -
  have "((x + 2 ^ 63) mod 2 ^ 64 - 2 ^ 63 + y + 2 ^ 63) mod 2 ^ 64
          = (x + 2 ^ 63 + y) mod (2 ^ 64 :: int)"
    by (rule wrap_add)
  then show ?thesis
    unfolding go_int_def by (simp only: add.assoc add.commute add.left_commute)
qed

lemma go_int_id: "- (2 ^ 63) \<le> x \<Longrightarrow> x < 2 ^ 63 \<Longrightarrow> go_int x = x"
  unfolding go_int_def by simp

lemma Next_fst: "fst (Next i) = go_int (id_val i + 1)"
  by (simp add: Next_def Let_def)

lemma Next_snd: "id_val (snd (Next i)) = go_int (id_val i + 1)"
  by (simp add: Next_def Let_def)

lemma Next_calls_Suc:
  "fst (Next_calls (Suc n) i) = fst (Next i) # fst (Next_calls n (snd (Next i)))"
  by (simp split: prod.splits)

lemma Next_calls_length: "length (fst (Next_calls n i)) = n"
  by (induction n arbitrary: i)
    (simp_all only: Next_calls_Suc Next_calls.simps(1) fst_conv list.size)

text \<open>The value of call number \<open>k\<close> (counted from 0), whatever the counter held before.\<close>

lemma Next_calls_nth:
  "k < n \<Longrightarrow> fst (Next_calls n i) ! k = go_int (id_val i + int k + 1)"
proof (induction n arbitrary: i k)
  case 0
  then show ?case by simp
next
  case (Suc n)
  show ?case
  proof (cases k)
    case 0
    then show ?thesis by (simp only: Next_calls_Suc nth_Cons_0 Next_fst) simp
  next
    case (Suc j)
    with Suc.prems have "j < n" by simp
    from Suc.IH [OF this, of "snd (Next i)"]
    have "fst (Next_calls n (snd (Next i))) ! j
            = go_int (go_int (id_val i + 1) + (int j + 1))"
      by (simp only: Next_snd add.assoc)
    also have "\<dots> = go_int (id_val i + 1 + (int j + 1))"
      by (rule go_int_add)
    also have "\<dots> = go_int (id_val i + int (Suc j) + 1)"
      by (simp add: algebra_simps)
    finally show ?thesis using Suc by (simp only: Next_calls_Suc nth_Cons_Suc)
  qed
qed

lemma Next_calls_run:
  assumes "N < 2 ^ 63"
  shows "fst (Next_calls N new_idCounter) = [1..int N]"
proof (rule nth_equalityI)
  show "length (fst (Next_calls N new_idCounter)) = length [1..int N]"
    by (simp add: Next_calls_length)
next
  fix k assume "k < length (fst (Next_calls N new_idCounter))"
  then have k: "k < N" by (simp add: Next_calls_length)
  have "int k + 1 < 2 ^ 63"
  proof -
    from k assms have "Suc k < 2 ^ 63" by simp
    then have "int (Suc k) < int (2 ^ 63)" by (simp only: of_nat_less_iff)
    then show ?thesis by simp
  qed
  then have "go_int (int k + 1) = int k + 1"
    by (intro go_int_id) simp_all
  moreover from k have "[1..int N] ! k = 1 + int k"
    by (intro nth_upto) simp
  ultimately show "fst (Next_calls N new_idCounter) ! k = [1..int N] ! k"
    using k by (simp add: Next_calls_nth new_idCounter_def)
qed

lemma Next_calls_wrap:
  "fst (Next_calls (2 ^ 63) new_idCounter) ! (2 ^ 63 - 1) = - (2 ^ 63)"
proof -
  have "(2 ^ 63 - 1 :: nat) < 2 ^ 63" by simp
  from Next_calls_nth [OF this, of new_idCounter]
  have "fst (Next_calls (2 ^ 63) new_idCounter) ! (2 ^ 63 - 1)
          = go_int (int (2 ^ 63 - 1) + 1)"
    by (simp add: new_idCounter_def)
  also have "int (2 ^ 63 - 1) + 1 = 2 ^ 63" by simp
  also have "go_int (2 ^ 63) = - (2 ^ 63)" by (simp add: go_int_def)
  finally show ?thesis .
qed

text \<open>
  Claim C3, amended. For a fresh \<^verbatim>\<open>idCounter\<close> and \<open>N\<close> successive calls of
  \<^verbatim>\<open>Next()\<close>, with \<open>N\<close> below 2^63: the values returned are 1, 2, ..., N in this
  order; so each call returns more than every call before it, and the first call
  returns 1.
\<close>

theorem idCounter_Next_run:
  assumes "N < 2 ^ 63"
  shows "fst (Next_calls N new_idCounter) = [1..int N]
    \<and> (\<forall>k<N. \<forall>j<k. fst (Next_calls N new_idCounter) ! j
                        < fst (Next_calls N new_idCounter) ! k)
    \<and> (0 < N \<longrightarrow> fst (Next_calls N new_idCounter) ! 0 = 1)"
proof -
  have run: "fst (Next_calls N new_idCounter) = [1..int N]"
    using assms by (rule Next_calls_run)
  have nth: "[1..int N] ! k = 1 + int k" if "k < N" for k
    using that by (intro nth_upto) simp
  have "[1..int N] ! j < [1..int N] ! k" if "k < N" "j < k" for j k
    using that by (simp add: nth)
  moreover have "[1..int N] ! 0 = 1" if "0 < N"
    using nth [OF that] by simp
  ultimately show ?thesis
    unfolding run by blast
qed

text \<open>Three calls on a fresh counter return 1, 2, 3.\<close>

theorem idCounter_Next_run_witness:
  "(3::nat) < 2 ^ 63 \<and> fst (Next_calls 3 new_idCounter) = [1, 2, 3]"
proof -
  have "[1..int 3] = [1, 2, 3]" by (simp add: upto.simps)
  with idCounter_Next_run [of 3] show ?thesis by simp
qed

text \<open>
  Claim C3 as stated, for every \<open>N\<close>, fails where the 64-bit counter wraps: of 2^63
  successive calls on a fresh counter the last one returns \<open>-2^63\<close>, which is
  less than the 1 the first call returned.
\<close>

theorem idCounter_Next_wraps:
  "fst (Next_calls (2 ^ 63) new_idCounter) ! (2 ^ 63 - 1)
     < fst (Next_calls (2 ^ 63) new_idCounter) ! 0"
proof -
  have "(0::nat) < 2 ^ 63" by simp
  from Next_calls_nth [OF this, of new_idCounter]
  have "fst (Next_calls (2 ^ 63) new_idCounter) ! 0 = go_int 1"
    by (simp add: new_idCounter_def)
  also have "go_int 1 = 1" by (simp add: go_int_def)
  finally have first: "fst (Next_calls (2 ^ 63) new_idCounter) ! 0 = 1" .
  have "- (2 ^ 63) < (1::int)" by simp
  then show ?thesis
    by (simp only: first Next_calls_wrap)
qed

section \<open>The plugin start sequence\<close>

text \<open>The registry after \<^verbatim>\<open>startPlugin\<close>: untouched on an error, one insertion otherwise.\<close>

lemma startPlugin_registry:
  "availablePlugins (snd (startPlugin nap r p)) =
     (case fst (startPlugin nap r p) of
        Inl e \<Rightarrow> availablePlugins r
      | Inr ap \<Rightarrow> Insert (availablePlugins r) ap)"
  by (simp add: startPlugin_def split: option.splits prod.splits sum.splits)

text \<open>When every step succeeds the instance is returned and inserted.\<close>

lemma startPlugin_success:
  assumes "Start p = None"
    and "WaitForResponse p (time_Second * 3) = (Some resp, None)"
    and "Response.State resp = PluginSuccess"
    and "nap resp (fst (Next (apIdCounter r))) = Inr ap"
    and "Ping (Client ap) = None"
  shows "startPlugin nap r p =
           (Inr ap, r\<lparr>apIdCounter := snd (Next (apIdCounter r)),
                      availablePlugins := Insert (availablePlugins r) ap\<rparr>)"
  using assms by (auto simp: startPlugin_def split: prod.splits)

text \<open>
  Claim C1. Whenever a step of \<^verbatim>\<open>startPlugin\<close> fails (the process does not start;
  the wait for the handshake returns an error, a timeout included; there is no
  response object; the response's state is not success; \<^verbatim>\<open>newAvailablePlugin\<close>
  returns an error; the ping of the new client fails), \<^verbatim>\<open>startPlugin\<close> returns an
  error and the registry \<^verbatim>\<open>availablePlugins\<close> is what it was before the call.
\<close>

theorem startPlugin_failure_registry_unchanged:
  assumes "Start p \<noteq> None
     \<or> snd (WaitForResponse p (time_Second * 3)) \<noteq> None
     \<or> fst (WaitForResponse p (time_Second * 3)) = None
     \<or> (\<exists>resp. fst (WaitForResponse p (time_Second * 3)) = Some resp \<and>
          (Response.State resp \<noteq> PluginSuccess
           \<or> (\<exists>e. nap resp (fst (Next (apIdCounter r))) = Inl e)
           \<or> (\<exists>ap e. nap resp (fst (Next (apIdCounter r))) = Inr ap
                        \<and> Ping (Client ap) = Some e)))"
  shows "(\<exists>e. fst (startPlugin nap r p) = Inl e)
     \<and> availablePlugins (snd (startPlugin nap r p)) = availablePlugins r"
proof -
  from assms have "\<exists>e. fst (startPlugin nap r p) = Inl e"
    by (auto simp: startPlugin_def split: option.splits prod.splits sum.splits)
  then show ?thesis
    by (auto simp: startPlugin_registry)
qed

text \<open>
  A start on a fresh runner whose handshake succeeds and whose ping fails: the ping's
  error comes back and the registry is still the empty one.
\<close>

theorem startPlugin_failure_registry_unchanged_witness:
  "fst (startPlugin
          (\<lambda>resp i. Inr ((mock_instance i)
                            \<lparr>Client := \<lparr>Ping = Some (errors_New ''ping failed'')\<rparr>\<rparr>))
          newRunner mock_handle)
     = Inl (errors_New ''ping failed'')
   \<and> availablePlugins (snd (startPlugin
          (\<lambda>resp i. Inr ((mock_instance i)
                            \<lparr>Client := \<lparr>Ping = Some (errors_New ''ping failed'')\<rparr>\<rparr>))
          newRunner mock_handle))
     = newAvailablePlugins"
  using startPlugin_failure_registry_unchanged
    [of mock_handle
        "\<lambda>resp i. Inr ((mock_instance i)
                          \<lparr>Client := \<lparr>Ping = Some (errors_New ''ping failed'')\<rparr>\<rparr>)"
        newRunner]
  by (simp add: startPlugin_def newRunner_def Next_def Let_def)

text \<open>
  Claim C8. \<^verbatim>\<open>startPlugin\<close> waits for the handshake with the fixed timeout of three
  seconds: it asks the transport for nothing but its answer at 3 000 000 000 ns. Once
  the process has started, an error of the wait (a transport failure or a timeout)
  comes back as an error carrying its message; a nil response with a nil error comes
  back as the error "no reponse object returned from plugin", which differs from
  every other error of the sequence; a response whose state is not success comes back
  as an error that embeds the message the plugin reported.
\<close>

theorem startPlugin_handshake_errors:
  "time_Second * 3 = 3000000000
   \<and> startPlugin nap r p
       = startPlugin nap r (p\<lparr>WaitForResponse := \<lambda>d. WaitForResponse p 3000000000\<rparr>)
   \<and> (Start p = None \<and> WaitForResponse p 3000000000 = (resp', Some err) \<longrightarrow>
        startPlugin nap r p
          = (Inl (errors_New (''error while waiting for response: '' @ Error err)), r))
   \<and> (Start p = None \<and> WaitForResponse p 3000000000 = (None, None) \<longrightarrow>
        startPlugin nap r p
          = (Inl (errors_New ''no reponse object returned from plugin''), r))
   \<and> (Start p = None \<and> WaitForResponse p 3000000000 = (Some resp, None)
        \<and> Response.State resp \<noteq> PluginSuccess \<longrightarrow>
        startPlugin nap r p
          = (Inl (errors_New (''plugin could not start error: '' @ ErrorMessage resp)), r))
   \<and> errors_New ''no reponse object returned from plugin''
        \<noteq> errors_New (''error while waiting for response: '' @ m1)
   \<and> errors_New ''no reponse object returned from plugin''
        \<noteq> errors_New (''plugin could not start error: '' @ m2)
   \<and> errors_New ''no reponse object returned from plugin''
        \<noteq> errors_New (''error while starting plugin: '' @ m3)"
  by (simp add: startPlugin_def time_Second_def split: option.splits)

text \<open>
  A wait that times out, a wait that returns neither a response nor an error, and a
  response that reports a failure, each on a fresh runner.
\<close>

theorem startPlugin_handshake_errors_witness:
  "startPlugin (\<lambda>resp n. Inl (errors_New ''not reached'')) newRunner
     \<lparr>Start = None, Kill = None,
      WaitForResponse = (\<lambda>d. if d < 3000000000 then (None, None)
                             else (None, Some (errors_New ''timeout waiting for response'')))\<rparr>
     = (Inl (errors_New ''error while waiting for response: timeout waiting for response''),
        newRunner)
   \<and> startPlugin (\<lambda>resp n. Inl (errors_New ''not reached'')) newRunner
       \<lparr>Start = None, Kill = None, WaitForResponse = (\<lambda>d. (None, None))\<rparr>
     = (Inl (errors_New ''no reponse object returned from plugin''), newRunner)
   \<and> startPlugin (\<lambda>resp n. Inl (errors_New ''not reached'')) newRunner
       \<lparr>Start = None, Kill = None,
        WaitForResponse =
          (\<lambda>d. (Some \<lparr>Response.State = PluginFailure, ErrorMessage = ''bad config''\<rparr>, None))\<rparr>
     = (Inl (errors_New ''plugin could not start error: bad config''), newRunner)"
  using
    startPlugin_handshake_errors
      [of "\<lambda>resp n. Inl (errors_New ''not reached'')" newRunner
        "\<lparr>Start = None, Kill = None,
          WaitForResponse = (\<lambda>d. if d < 3000000000 then (None, None)
                             else (None, Some (errors_New ''timeout waiting for response'')))\<rparr>"
        None "errors_New ''timeout waiting for response''"]
    startPlugin_handshake_errors
      [of "\<lambda>resp n. Inl (errors_New ''not reached'')" newRunner
        "\<lparr>Start = None, Kill = None, WaitForResponse = (\<lambda>d. (None, None))\<rparr>"]
    startPlugin_handshake_errors
      [of "\<lambda>resp n. Inl (errors_New ''not reached'')" newRunner
        "\<lparr>Start = None, Kill = None,
          WaitForResponse =
            (\<lambda>d. (Some \<lparr>Response.State = PluginFailure, ErrorMessage = ''bad config''\<rparr>, None))\<rparr>"
        _ _ "\<lparr>Response.State = PluginFailure, ErrorMessage = ''bad config''\<rparr>"]
  by (simp add: startPlugin_def time_Second_def)

section \<open>The health monitor\<close>

text \<open>While the channel is open the background loop leaves the monitor as it is.\<close>

lemma loop_run_open: "quit m = Some ChanOpen \<Longrightarrow> loop_run evs m = m"
  by (induction evs) (auto simp: loop_select_def split: loop_event.splits)

text \<open>A stopped monitor stays stopped, whatever the background loop does.\<close>

lemma loop_run_stopped:
  "monitor.State m = MonitorStopped \<Longrightarrow> monitor.State (loop_run evs m) = MonitorStopped"
  by (induction evs arbitrary: m)
    (auto simp: loop_select_def split: loop_event.splits option.splits loop_status.splits)

lemma loop_run_closed_quit:
  "quit (loop_run evs m) = quit m"
  by (induction evs arbitrary: m)
    (auto simp: loop_select_def split: loop_event.splits option.splits loop_status.splits)

text \<open>
  Claim C4, amended. Starting the monitor and then calling \<^verbatim>\<open>Stop()\<close> (with any
  ticks of the background loop in between) does not panic and leaves the monitor's
  state Stopped with the channel closed, and the state stays Stopped whatever the
  background loop does afterwards. Calling \<^verbatim>\<open>Stop()\<close> a second time panics: it
  closes the channel that is already closed.
\<close>

theorem monitor_Start_Stop_once:
  "monitor_Stop (loop_run evs (monitor_Start m))
     = Inr \<lparr>State = MonitorStopped, quit = Some ChanClosed\<rparr>
   \<and> monitor.State (loop_run evs' \<lparr>State = MonitorStopped, quit = Some ChanClosed\<rparr>)
       = MonitorStopped
   \<and> monitor_Stop (loop_run evs' \<lparr>State = MonitorStopped, quit = Some ChanClosed\<rparr>)
       = Inl CloseOfClosedChannel"
proof -
  have "loop_run evs (monitor_Start m) = monitor_Start m"
    by (rule loop_run_open) (simp add: monitor_Start_def)
  then have "monitor_Stop (loop_run evs (monitor_Start m))
     = Inr \<lparr>State = MonitorStopped, quit = Some ChanClosed\<rparr>"
    by (simp add: monitor_Stop_def monitor_Start_def close_chan_def)
  moreover have "monitor.State (loop_run evs' \<lparr>State = MonitorStopped, quit = Some ChanClosed\<rparr>)
       = MonitorStopped"
    by (rule loop_run_stopped) simp
  moreover have "monitor_Stop (loop_run evs' \<lparr>State = MonitorStopped, quit = Some ChanClosed\<rparr>)
       = Inl CloseOfClosedChannel"
    by (simp add: monitor_Stop_def close_chan_def loop_run_closed_quit)
  ultimately show ?thesis by simp
qed

text \<open>
  Claim C4 as stated fails in its second half: on a new monitor, \<^verbatim>\<open>Start()\<close> and
  \<^verbatim>\<open>Stop()\<close> give the stopped monitor with a closed channel, and \<^verbatim>\<open>Stop()\<close> on
  that monitor panics.
\<close>

theorem monitor_Stop_twice_panics:
  "monitor_Stop (monitor_Start newMonitor)
     = Inr \<lparr>State = MonitorStopped, quit = Some ChanClosed\<rparr>
   \<and> monitor_Stop \<lparr>State = MonitorStopped, quit = Some ChanClosed\<rparr>
       = Inl CloseOfClosedChannel"
  by (simp add: monitor_Stop_def monitor_Start_def newMonitor_def close_chan_def)

text \<open>
  Claim C9. \<^verbatim>\<open>newMonitor\<close> leaves the quit channel nil, and \<^verbatim>\<open>Stop()\<close> on a monitor
  that was never started closes that nil channel and panics. So does the runner's
  \<^verbatim>\<open>Stop()\<close> on a new runner (with or without delegates) whose \<^verbatim>\<open>Start()\<close> was
  never called, and on the runner a failed \<^verbatim>\<open>Start()\<close> leaves behind.
\<close>

theorem monitor_Stop_never_started:
  "quit newMonitor = None
   \<and> monitor_Stop newMonitor = Inl CloseOfNilChannel
   \<and> runner_Stop unreg (AddDelegates newRunner ds) w = Inl CloseOfNilChannel
   \<and> (fst (runner_Start reg (AddDelegates newRunner ds) w) \<noteq> None \<longrightarrow>
        runner_Stop unreg (fst (snd (runner_Start reg (AddDelegates newRunner ds) w))) w'
          = Inl CloseOfNilChannel)"
  by (auto simp: newMonitor_def monitor_Stop_def close_chan_def runner_Stop_def
      AddDelegates_def newRunner_def runner_Start_def split: prod.splits option.splits)

text \<open>A runner whose only delegate refuses the registration: \<^verbatim>\<open>Start()\<close> fails, then \<^verbatim>\<open>Stop()\<close> panics.\<close>

theorem monitor_Stop_never_started_witness:
  "fst (runner_Start (\<lambda>d n w. (Some (errors_New ''refused''), w)) (AddDelegates newRunner [0]) ())
     = Some (errors_New ''refused'')
   \<and> runner_Stop (\<lambda>d n w. (None, w))
        (fst (snd (runner_Start (\<lambda>d n w. (Some (errors_New ''refused''), w))
                     (AddDelegates newRunner [0]) ()))) ()
       = Inl CloseOfNilChannel"
  using monitor_Stop_never_started
    [of "\<lambda>d n w. (None, w)" "[0]" "()" "\<lambda>d n w. (Some (errors_New ''refused''), w)" "()"]
  by (simp add: runner_Start_def AddDelegates_def newRunner_def)

section \<open>Starting and stopping the runner\<close>

lemma registerHandlers_Cons:
  "registerHandlers reg (d # ds) w =
     (if fst (reg d HandlerRegistrationName w) = None
      then registerHandlers reg ds (snd (reg d HandlerRegistrationName w))
      else reg d HandlerRegistrationName w)"
  by (auto split: prod.splits option.splits)

lemma call_result_Cons:
  "call_result f (d # ds) w (Suc i)
     = call_result f ds (snd (f d HandlerRegistrationName w)) i"
  by (simp add: call_result_def bus_after_def)

lemma registerHandlers_all_ok:
  assumes "\<forall>i<length ds. call_result reg ds w i = None"
  shows "registerHandlers reg ds w = (None, bus_after reg ds w)"
  using assms
proof (induction ds arbitrary: w)
  case Nil
  then show ?case by (simp add: bus_after_def)
next
  case (Cons d ds)
  from Cons.prems [rule_format, of 0]
  have d: "fst (reg d HandlerRegistrationName w) = None"
    by (simp add: call_result_def bus_after_def)
  have "\<forall>i<length ds. call_result reg ds (snd (reg d HandlerRegistrationName w)) i = None"
  proof (intro allI impI)
    fix i assume "i < length ds"
    with Cons.prems [rule_format, of "Suc i"]
    show "call_result reg ds (snd (reg d HandlerRegistrationName w)) i = None"
      by (simp add: call_result_Cons)
  qed
  from Cons.IH [OF this] d show ?case
    by (simp add: registerHandlers_Cons bus_after_def del: registerHandlers.simps(2))
qed

lemma registerHandlers_append:
  "registerHandlers reg ds1 w = (None, w1) \<Longrightarrow>
     registerHandlers reg (ds1 @ ds) w = registerHandlers reg ds w1"
  by (induction ds1 arbitrary: w)
    (auto simp: registerHandlers_Cons simp del: registerHandlers.simps(2) split: if_splits)

text \<open>
  Claim C6. \<^verbatim>\<open>Start()\<close> returns the error "No delegates added before called
  Start()" when the runner has no delegates, and changes nothing. Otherwise it
  registers the runner under the handler name with the delegates in order. When the
  registration on a delegate fails after those before it succeeded, \<^verbatim>\<open>Start()\<close>
  returns that delegate's error at once: the bus is as that call left it, no later
  delegate is called, and the runner, its monitor included, is unchanged. Only when
  every registration succeeds does it start the monitor and return nil.
\<close>

theorem runner_Start_contract:
  "(delegates r = [] \<longrightarrow>
      runner_Start reg r w
        = (Some (errors_New ''No delegates added before called Start()''), r, w))
   \<and> (delegates r = ds1 @ d # ds2
       \<and> (\<forall>i<length ds1. call_result reg ds1 w i = None)
       \<and> reg d HandlerRegistrationName (bus_after reg ds1 w) = (Some e, w2)
      \<longrightarrow> runner_Start reg r w = (Some e, r, w2))
   \<and> (delegates r \<noteq> []
       \<and> (\<forall>i<length (delegates r). call_result reg (delegates r) w i = None)
      \<longrightarrow> runner_Start reg r w
            = (None, r\<lparr>monitor := monitor_Start (monitor r)\<rparr>,
               bus_after reg (delegates r) w)
          \<and> monitor.State (monitor_Start (monitor r)) = MonitorStarted)"
proof (intro conjI impI)
  assume "delegates r = []"
  then show "runner_Start reg r w
        = (Some (errors_New ''No delegates added before called Start()''), r, w)"
    by (simp add: runner_Start_def)
next
  assume a: "delegates r = ds1 @ d # ds2
       \<and> (\<forall>i<length ds1. call_result reg ds1 w i = None)
       \<and> reg d HandlerRegistrationName (bus_after reg ds1 w) = (Some e, w2)"
  then have "registerHandlers reg ds1 w = (None, bus_after reg ds1 w)"
    by (intro registerHandlers_all_ok) simp
  from registerHandlers_append [OF this, of "d # ds2"] a
  have "registerHandlers reg (delegates r) w = (Some e, w2)" by simp
  with a show "runner_Start reg r w = (Some e, r, w2)"
    by (simp add: runner_Start_def)
next
  assume a: "delegates r \<noteq> []
       \<and> (\<forall>i<length (delegates r). call_result reg (delegates r) w i = None)"
  then have "registerHandlers reg (delegates r) w = (None, bus_after reg (delegates r) w)"
    by (intro registerHandlers_all_ok) simp
  with a show "runner_Start reg r w
            = (None, r\<lparr>monitor := monitor_Start (monitor r)\<rparr>,
               bus_after reg (delegates r) w)"
    by (simp add: runner_Start_def)
next
  show "monitor.State (monitor_Start (monitor r)) = MonitorStarted"
    by (simp add: monitor_Start_def)
qed

text \<open>
  A bus that logs every call and refuses delegate 2: with delegates 1, 2, 3 the start
  fails after the calls on 1 and 2; with delegates 1, 3 it succeeds and the monitor is
  started; with no delegate it fails at once.
\<close>

theorem runner_Start_contract_witness:
  "runner_Start (\<lambda>d n w. (if d = 2 then Some (errors_New ''refused'') else None, w @ [(d, n)]))
     (AddDelegates newRunner [1, 2, 3]) []
     = (Some (errors_New ''refused''), AddDelegates newRunner [1, 2, 3],
        [(1, ''control.runner''), (2, ''control.runner'')])
   \<and> runner_Start (\<lambda>d n w. (if d = 2 then Some (errors_New ''refused'') else None, w @ [(d, n)]))
       (AddDelegates newRunner [1, 3]) []
     = (None,
        (AddDelegates newRunner [1, 3])
          \<lparr>monitor := \<lparr>State = MonitorStarted, quit = Some ChanOpen\<rparr>\<rparr>,
        [(1, ''control.runner''), (3, ''control.runner'')])
   \<and> runner_Start (\<lambda>d n w. (if d = 2 then Some (errors_New ''refused'') else None, w @ [(d, n)]))
       newRunner []
     = (Some (errors_New ''No delegates added before called Start()''), newRunner, [])"
  using
    runner_Start_contract
      [of "AddDelegates newRunner [1, 2, 3]"
          "\<lambda>d n w. (if d = 2 then Some (errors_New ''refused'') else None, w @ [(d, n)])"
          "[]" "[1]" 2 "[3]" "errors_New ''refused''"
          "[(1, ''control.runner''), (2, ''control.runner'')]"]
    runner_Start_contract
      [of "AddDelegates newRunner [1, 3]"
          "\<lambda>d n w. (if d = 2 then Some (errors_New ''refused'') else None, w @ [(d, n)])"
          "[]"]
    runner_Start_contract
      [of newRunner
          "\<lambda>d n w. (if d = 2 then Some (errors_New ''refused'') else None, w @ [(d, n)])"
          "[]"]
  by (simp add: AddDelegates_def newRunner_def call_result_def bus_after_def
      HandlerRegistrationName_def monitor_Start_def newMonitor_def runner_Start_def)

lemma bus_after_snoc:
  "bus_after f (ds @ [d]) w = snd (f d HandlerRegistrationName (bus_after f ds w))"
  by (simp add: bus_after_def)

lemma call_result_append:
  "i < length ds \<Longrightarrow> call_result f (ds @ ds') w i = call_result f ds w i"
  by (simp add: call_result_def nth_append)

lemma call_result_last:
  "call_result f (ds @ [d]) w (length ds) = fst (f d HandlerRegistrationName (bus_after f ds w))"
  by (simp add: call_result_def)

lemma unregisterHandlers_snoc:
  "unregisterHandlers unreg (ds @ [d]) w errs =
     (case unregisterHandlers unreg ds w errs of
        (errs', w') \<Rightarrow>
          (case unreg d HandlerRegistrationName w' of
             (Some e, w'') \<Rightarrow> (errs' @ [e], w'')
           | (None, w'') \<Rightarrow> (errs', w'')))"
  by (induction ds arbitrary: w errs) (auto split: prod.splits option.splits)

lemma unregisterHandlers_collects:
  "unregisterHandlers unreg ds w errs =
     (errs @ map the (filter (\<lambda>x. x \<noteq> None) (map (call_result unreg ds w) [0..<length ds])),
      bus_after unreg ds w)"
proof (induction ds rule: rev_induct)
  case Nil
  then show ?case by (simp add: bus_after_def)
next
  case (snoc d ds)
  have same: "map (call_result unreg (ds @ [d]) w) [0..<length ds]
                = map (call_result unreg ds w) [0..<length ds]"
    by (simp add: call_result_append)
  show ?case
    by (cases "unreg d HandlerRegistrationName (bus_after unreg ds w)")
      (auto simp: unregisterHandlers_snoc snoc.IH same call_result_last bus_after_snoc
        split: option.splits)
qed

text \<open>\<^verbatim>\<open>Stop()\<close> returns exactly when the monitor's channel is open, that is, when the monitor is running.\<close>

lemma runner_Stop_returns_iff:
  "(\<exists>x. runner_Stop unreg r w = Inr x) \<longleftrightarrow> quit (monitor r) = Some ChanOpen"
  by (auto simp: runner_Stop_def monitor_Stop_def close_chan_def
      split: sum.splits option.splits chan.splits prod.splits)

text \<open>
  Claim C7, amended. When the monitor is running (its quit channel is open, as after
  a successful \<^verbatim>\<open>Start()\<close>), \<^verbatim>\<open>Stop()\<close> stops the monitor and then calls
  \<^verbatim>\<open>UnregisterHandler\<close> on every delegate in order, whatever the earlier calls
  returned: the bus ends in the state after all the calls, the list returned holds the
  error of every call that failed, in call order, and it is empty exactly when every
  call succeeded.
\<close>

theorem runner_Stop_contract:
  assumes "quit (monitor r) = Some ChanOpen"
  shows "runner_Stop unreg r w =
           Inr (map the (filter (\<lambda>x. x \<noteq> None)
                  (map (call_result unreg (delegates r) w) [0..<length (delegates r)])),
                r\<lparr>monitor := (monitor r)\<lparr>quit := Some ChanClosed,
                                         monitor.State := MonitorStopped\<rparr>\<rparr>,
                bus_after unreg (delegates r) w)
     \<and> (map the (filter (\<lambda>x. x \<noteq> None)
                  (map (call_result unreg (delegates r) w) [0..<length (delegates r)])) = []
          \<longleftrightarrow> (\<forall>i<length (delegates r). call_result unreg (delegates r) w i = None))"
proof -
  have "monitor_Stop (monitor r)
          = Inr ((monitor r)\<lparr>quit := Some ChanClosed, monitor.State := MonitorStopped\<rparr>)"
    using assms by (simp add: monitor_Stop_def close_chan_def)
  then have "runner_Stop unreg r w =
           Inr (map the (filter (\<lambda>x. x \<noteq> None)
                  (map (call_result unreg (delegates r) w) [0..<length (delegates r)])),
                r\<lparr>monitor := (monitor r)\<lparr>quit := Some ChanClosed,
                                         monitor.State := MonitorStopped\<rparr>\<rparr>,
                bus_after unreg (delegates r) w)"
    by (simp add: runner_Stop_def unregisterHandlers_collects)
  moreover have "(map the (filter (\<lambda>x. x \<noteq> None)
                  (map (call_result unreg (delegates r) w) [0..<length (delegates r)])) = []
          \<longleftrightarrow> (\<forall>i<length (delegates r). call_result unreg (delegates r) w i = None))"
    by (auto simp: filter_empty_conv)
  ultimately show ?thesis by simp
qed

text \<open>
  A bus that logs every call and unregisters delegate 2 only: with delegates 1, 2, 3
  all three are called and the errors of 1 and 3 are returned.
\<close>

theorem runner_Stop_contract_witness:
  "runner_Stop (\<lambda>d n w. (if d = 2 then None else Some (errors_New (''failed '' @ n)), w @ [d]))
     ((AddDelegates newRunner [1, 2, 3])\<lparr>monitor := monitor_Start newMonitor\<rparr>) []
   = Inr ([errors_New ''failed control.runner'', errors_New ''failed control.runner''],
          (AddDelegates newRunner [1, 2, 3])
            \<lparr>monitor := \<lparr>State = MonitorStopped, quit = Some ChanClosed\<rparr>\<rparr>,
          [1, 2, 3])"
  using runner_Stop_contract
    [of "(AddDelegates newRunner [1, 2, 3])\<lparr>monitor := monitor_Start newMonitor\<rparr>"
        "\<lambda>d n w. (if d = 2 then None else Some (errors_New (''failed '' @ n)), w @ [d])" "[]"]
  by (simp add: AddDelegates_def newRunner_def monitor_Start_def newMonitor_def
      call_result_def bus_after_def HandlerRegistrationName_def upt_rec)

text \<open>
  Claim C7 as stated, for every runner, fails where the monitor is not running: on a
  runner with delegates 1, 2, 3 whose \<^verbatim>\<open>Start()\<close> was never called, \<^verbatim>\<open>Stop()\<close>
  panics on closing the nil channel, and on the runner left by a first \<^verbatim>\<open>Stop()\<close> it
  panics on closing the closed channel. In both cases it returns no list and calls
  \<^verbatim>\<open>UnregisterHandler\<close> on no delegate.
\<close>

theorem runner_Stop_not_running_panics:
  "runner_Stop (\<lambda>d n w. (None, w @ [d])) (AddDelegates newRunner [1, 2, 3]) []
     = Inl CloseOfNilChannel
   \<and> runner_Stop (\<lambda>d n w. (None, w @ [d]))
        ((AddDelegates newRunner [1, 2, 3])
           \<lparr>monitor := \<lparr>State = MonitorStopped, quit = Some ChanClosed\<rparr>\<rparr>) []
     = Inl CloseOfClosedChannel"
  by (simp add: runner_Stop_def monitor_Stop_def close_chan_def AddDelegates_def
      newRunner_def newMonitor_def)

section \<open>Handling a publisher subscription\<close>

text \<open>One round of the loop, by the three ways it can go for a matching plugin.\<close>

lemma publisherLoop_skip:
  "\<not> is_match n v lp \<Longrightarrow>
     publisherLoop nep nap pm n v (lp # lps) r = publisherLoop nep nap pm n v lps r"
  by (auto simp: is_match_def)

lemma publisherLoop_denied:
  "is_match n v lp \<Longrightarrow> \<not> admitted r lp \<Longrightarrow>
     publisherLoop nep nap pm n v (lp # lps) r = (Returned, r, [Checked lp False])"
  by (simp add: is_match_def admitted_def Let_def)

lemma publisherLoop_started:
  "is_match n v lp \<Longrightarrow> admitted r lp \<Longrightarrow>
   startPlugin nap r (fst (nep (GenerateArgs pm (Path lp)) (Path lp))) = (Inr ap, r') \<Longrightarrow>
     publisherLoop nep nap pm n v (lp # lps) r =
       (fst (publisherLoop nep nap pm n v lps r'),
        fst (snd (publisherLoop nep nap pm n v lps r')),
        Checked lp True # Started lp # snd (snd (publisherLoop nep nap pm n v lps r')))"
  by (cases "nep (GenerateArgs pm (Path lp)) (Path lp)")
    (auto simp: is_match_def admitted_def Let_def split: prod.splits)

lemma publisherLoop_start_failed:
  "is_match n v lp \<Longrightarrow> admitted r lp \<Longrightarrow>
   startPlugin nap r (fst (nep (GenerateArgs pm (Path lp)) (Path lp))) = (Inl e, r') \<Longrightarrow>
     publisherLoop nep nap pm n v (lp # lps) r =
       (Panicked (PanicError e), r', [Checked lp True, Started lp, Printed e])"
  by (cases "nep (GenerateArgs pm (Path lp)) (Path lp)")
    (auto simp: is_match_def admitted_def Let_def split: prod.splits)

text \<open>
  The actions of a run that returns: an admitted check and a start for each of the
  first \<open>k\<close> matches, then, unless the matches are used up, one denied check.
\<close>

lemma publisherLoop_trace:
  assumes "publisherLoop nep nap pm n v lps r = (Returned, r', acts)"
  shows "\<exists>k\<le>length (filter (is_match n v) lps).
           acts = concat (map (\<lambda>lp. [Checked lp True, Started lp])
                            (take k (filter (is_match n v) lps)))
                  @ (if k < length (filter (is_match n v) lps)
                     then [Checked (filter (is_match n v) lps ! k) False] else [])
           \<and> (k < length (filter (is_match n v) lps)
                \<longrightarrow> \<not> admitted r' (filter (is_match n v) lps ! k))"
  using assms
proof (induction lps arbitrary: r acts)
  case Nil
  then show ?case by simp
next
  case (Cons lp lps)
  show ?case
  proof (cases "is_match n v lp")
    case False
    with Cons.prems have "publisherLoop nep nap pm n v lps r = (Returned, r', acts)"
      by (simp add: publisherLoop_skip del: publisherLoop.simps)
    moreover from False have "filter (is_match n v) (lp # lps) = filter (is_match n v) lps"
      by simp
    ultimately show ?thesis
      by (simp only: Cons.IH)
  next
    case m: True
    show ?thesis
    proof (cases "admitted r lp")
      case False
      with m Cons.prems have "r' = r" "acts = [Checked lp False]"
        by (simp_all add: publisherLoop_denied del: publisherLoop.simps)
      with m False show ?thesis
        by (intro exI [of _ 0]) simp
    next
      case a: True
      obtain res r1 where sp:
        "startPlugin nap r (fst (nep (GenerateArgs pm (Path lp)) (Path lp))) = (res, r1)"
        by (cases "startPlugin nap r (fst (nep (GenerateArgs pm (Path lp)) (Path lp)))")
      show ?thesis
      proof (cases res)
        case (Inl e)
        with m a sp Cons.prems show ?thesis
          by (simp add: publisherLoop_start_failed del: publisherLoop.simps)
      next
        case (Inr ap)
        with sp have sp': "startPlugin nap r (fst (nep (GenerateArgs pm (Path lp)) (Path lp)))
            = (Inr ap, r1)" by simp
        obtain e r2 acts2 where rest: "publisherLoop nep nap pm n v lps r1 = (e, r2, acts2)"
          by (cases "publisherLoop nep nap pm n v lps r1")
        have "publisherLoop nep nap pm n v (lp # lps) r
                = (e, r2, Checked lp True # Started lp # acts2)"
          using publisherLoop_started [of n v lp r nap nep pm ap r1 lps, OF m a sp'] rest
          by simp
        with Cons.prems
        have "e = Returned" "r2 = r'" "acts = Checked lp True # Started lp # acts2"
          by simp_all
        with rest have "publisherLoop nep nap pm n v lps r1 = (Returned, r', acts2)" by simp
        from Cons.IH [OF this] obtain k where k:
          "k \<le> length (filter (is_match n v) lps)"
          "acts2 = concat (map (\<lambda>lp. [Checked lp True, Started lp])
                            (take k (filter (is_match n v) lps)))
                  @ (if k < length (filter (is_match n v) lps)
                     then [Checked (filter (is_match n v) lps ! k) False] else [])"
          "k < length (filter (is_match n v) lps)
                \<longrightarrow> \<not> admitted r' (filter (is_match n v) lps ! k)"
          by blast
        with m \<open>acts = Checked lp True # Started lp # acts2\<close> show ?thesis
          by (intro exI [of _ "Suc k"]) simp
      qed
    qed
  qed
qed

text \<open>
  Claim C5, amended. Handling a publisher demand event, the runner goes through the
  loaded plugins in order and passes over those that do not match category
  "publisher" and the event's name and version. To a match it reaches it applies the
  admission check on that plugin's publisher pool. A match that passes gets a handle
  built and \<^verbatim>\<open>startPlugin\<close> called on it, and when the start succeeds the loop goes
  on with the next loaded plugin. The first match that is denied spawns nothing,
  leaves the runner as it is and ends the handling of the event: the loaded plugins
  after it are neither checked nor started. So a handling that returns has started
  the first \<open>k\<close> matches, for some \<open>k\<close>, and nothing else.
\<close>

theorem publisher_event_stops_at_first_denial:
  "(pluginManager r = Some pm \<longrightarrow>
      HandleGomitEvent nep nap r \<lparr>Body = PublisherSubscriptionEvent n v\<rparr>
        = publisherLoop nep nap pm n v (LoadedPlugins pm) r)
   \<and> (publisherLoop nep nap pm n v lps r = (Returned, r', acts) \<longrightarrow>
        (\<exists>k\<le>length (filter (is_match n v) lps).
           acts = concat (map (\<lambda>lp. [Checked lp True, Started lp])
                            (take k (filter (is_match n v) lps)))
                  @ (if k < length (filter (is_match n v) lps)
                     then [Checked (filter (is_match n v) lps ! k) False] else [])
           \<and> (k < length (filter (is_match n v) lps)
                \<longrightarrow> \<not> admitted r' (filter (is_match n v) lps ! k))))
   \<and> (\<not> is_match n v lp \<longrightarrow>
        publisherLoop nep nap pm n v (lp # lps) r = publisherLoop nep nap pm n v lps r)
   \<and> (is_match n v lp \<and> \<not> admitted r lp \<longrightarrow>
        publisherLoop nep nap pm n v (lp # lps) r = (Returned, r, [Checked lp False]))
   \<and> (is_match n v lp \<and> admitted r lp
        \<and> startPlugin nap r (fst (nep (GenerateArgs pm (Path lp)) (Path lp))) = (Inr ap, rn)
      \<longrightarrow> publisherLoop nep nap pm n v (lp # lps) r =
            (fst (publisherLoop nep nap pm n v lps rn),
             fst (snd (publisherLoop nep nap pm n v lps rn)),
             Checked lp True # Started lp # snd (snd (publisherLoop nep nap pm n v lps rn))))"
proof (intro conjI impI)
  assume "pluginManager r = Some pm"
  then show "HandleGomitEvent nep nap r \<lparr>Body = PublisherSubscriptionEvent n v\<rparr>
        = publisherLoop nep nap pm n v (LoadedPlugins pm) r"
    by (simp add: HandleGomitEvent_def)
next
  assume "publisherLoop nep nap pm n v lps r = (Returned, r', acts)"
  then show "\<exists>k\<le>length (filter (is_match n v) lps).
           acts = concat (map (\<lambda>lp. [Checked lp True, Started lp])
                            (take k (filter (is_match n v) lps)))
                  @ (if k < length (filter (is_match n v) lps)
                     then [Checked (filter (is_match n v) lps ! k) False] else [])
           \<and> (k < length (filter (is_match n v) lps)
                \<longrightarrow> \<not> admitted r' (filter (is_match n v) lps ! k))"
    by (rule publisherLoop_trace)
next
  assume "\<not> is_match n v lp"
  then show "publisherLoop nep nap pm n v (lp # lps) r = publisherLoop nep nap pm n v lps r"
    by (rule publisherLoop_skip)
next
  assume "is_match n v lp \<and> \<not> admitted r lp"
  then show "publisherLoop nep nap pm n v (lp # lps) r = (Returned, r, [Checked lp False])"
    by (simp add: publisherLoop_denied del: publisherLoop.simps)
next
  assume "is_match n v lp \<and> admitted r lp
        \<and> startPlugin nap r (fst (nep (GenerateArgs pm (Path lp)) (Path lp))) = (Inr ap, rn)"
  then show "publisherLoop nep nap pm n v (lp # lps) r =
            (fst (publisherLoop nep nap pm n v lps rn),
             fst (snd (publisherLoop nep nap pm n v lps rn)),
             Checked lp True # Started lp # snd (snd (publisherLoop nep nap pm n v lps rn)))"
    using publisherLoop_started [of n v lp r nap nep pm ap rn lps] by blast
qed

text \<open>
  The pool of "mock:1" holds two instances; the loaded plugins are the publisher, a
  collector, a second copy of the publisher and the publisher again. The first match
  is admitted and started, which fills the pool; the collector is passed over; the
  second match is denied and the handler returns without looking at the last one.
\<close>

theorem publisher_event_stops_at_first_denial_witness:
  "\<exists>r'. HandleGomitEvent (\<lambda>args path. (mock_handle, None)) (\<lambda>resp i. Inr (mock_instance i))
       (mock_runner [mock_publisher ''/plugins/mock'', cpu_collector,
                      mock_publisher ''/plugins/mock-copy'', mock_publisher ''/plugins/mock'']
          [1, 2])
       \<lparr>Body = PublisherSubscriptionEvent ''mock'' 1\<rparr>
     = (Returned, r',
        [Checked (mock_publisher ''/plugins/mock'') True,
         Started (mock_publisher ''/plugins/mock''),
         Checked (mock_publisher ''/plugins/mock-copy'') False])"
  using publisher_event_stops_at_first_denial
    [where r = "mock_runner [mock_publisher ''/plugins/mock'', cpu_collector,
                      mock_publisher ''/plugins/mock-copy'', mock_publisher ''/plugins/mock'']
          [1, 2]"
       and pm = "\<lparr>LoadedPlugins = [mock_publisher ''/plugins/mock'', cpu_collector,
                      mock_publisher ''/plugins/mock-copy'', mock_publisher ''/plugins/mock''],
                  GenerateArgs = (\<lambda>path. [])\<rparr>"
       and nep = "\<lambda>args path. (mock_handle, None)" and nap = "\<lambda>resp i. Inr (mock_instance i)"
       and n = "''mock''" and v = 1]
  by (simp add: HandleGomitEvent_def newRunner_def newAvailablePlugins_def GetPluginPool_def
      checkPool_def Count_def MaximumRunningPlugins_def startPlugin_def time_Second_def
      Next_def go_int_def Insert_def Add_def Let_def)

text \<open>
  Claim C5 as stated fails: with a full pool and two matching loaded plugins the
  handler makes one admission check, denies the first match and returns; the second
  match is not processed, no admission check is applied to it.
\<close>

theorem publisher_event_denial_ends_handling:
  "snd (snd (HandleGomitEvent (\<lambda>args path. (mock_handle, None)) (\<lambda>resp i. Inr (mock_instance i))
       (mock_runner [mock_publisher ''/plugins/mock'', mock_publisher ''/plugins/mock-copy'']
          [1, 2, 3])
       \<lparr>Body = PublisherSubscriptionEvent ''mock'' 1\<rparr>))
     = [Checked (mock_publisher ''/plugins/mock'') False]"
  by (simp add: HandleGomitEvent_def newRunner_def newAvailablePlugins_def GetPluginPool_def
      checkPool_def Count_def MaximumRunningPlugins_def Let_def)

text \<open>The error of \<^verbatim>\<open>plugin.NewExecutablePlugin\<close> has no influence on the loop.\<close>

lemma publisherLoop_error_unread:
  "publisherLoop nep nap pm n v lps r
     = publisherLoop (\<lambda>args path. (fst (nep args path), None)) nap pm n v lps r"
  by (induction lps arbitrary: r) (auto simp: Let_def split: prod.splits sum.splits)

text \<open>
  Claim C10. In the publisher case the error returned by
  \<^verbatim>\<open>plugin.NewExecutablePlugin\<close> is never read: the handler does the same with the
  error replaced by nil. When the construction returns a handle together with an
  error, the handle is passed to \<^verbatim>\<open>startPlugin\<close> all the same, and what the handler
  then prints and panics with, or goes on after, is the result of \<^verbatim>\<open>startPlugin\<close>,
  not the construction error.
\<close>

theorem handle_construction_error_ignored:
  "HandleGomitEvent nep nap r \<lparr>Body = PublisherSubscriptionEvent n v\<rparr>
     = HandleGomitEvent (\<lambda>args path. (fst (nep args path), None)) nap r
         \<lparr>Body = PublisherSubscriptionEvent n v\<rparr>
   \<and> (is_match n v lp \<and> admitted r lp
       \<and> nep (GenerateArgs pm (Path lp)) (Path lp) = (ePlugin, Some err)
       \<and> startPlugin nap r ePlugin = (Inl e, rn)
      \<longrightarrow> publisherLoop nep nap pm n v (lp # lps) r
            = (Panicked (PanicError e), rn, [Checked lp True, Started lp, Printed e]))
   \<and> (is_match n v lp \<and> admitted r lp
       \<and> nep (GenerateArgs pm (Path lp)) (Path lp) = (ePlugin, Some err)
       \<and> startPlugin nap r ePlugin = (Inr ap, rn)
      \<longrightarrow> publisherLoop nep nap pm n v (lp # lps) r
            = (fst (publisherLoop nep nap pm n v lps rn),
               fst (snd (publisherLoop nep nap pm n v lps rn)),
               Checked lp True # Started lp # snd (snd (publisherLoop nep nap pm n v lps rn))))"
proof (intro conjI impI)
  show "HandleGomitEvent nep nap r \<lparr>Body = PublisherSubscriptionEvent n v\<rparr>
     = HandleGomitEvent (\<lambda>args path. (fst (nep args path), None)) nap r
         \<lparr>Body = PublisherSubscriptionEvent n v\<rparr>"
    using publisherLoop_error_unread [of nep nap _ n v _ r]
    by (simp add: HandleGomitEvent_def split: option.splits)
next
  assume a: "is_match n v lp \<and> admitted r lp
       \<and> nep (GenerateArgs pm (Path lp)) (Path lp) = (ePlugin, Some err)
       \<and> startPlugin nap r ePlugin = (Inl e, rn)"
  then have "startPlugin nap r (fst (nep (GenerateArgs pm (Path lp)) (Path lp))) = (Inl e, rn)"
    by simp
  with a show "publisherLoop nep nap pm n v (lp # lps) r
            = (Panicked (PanicError e), rn, [Checked lp True, Started lp, Printed e])"
    using publisherLoop_start_failed [of n v lp r nap nep pm e rn lps] by blast
next
  assume a: "is_match n v lp \<and> admitted r lp
       \<and> nep (GenerateArgs pm (Path lp)) (Path lp) = (ePlugin, Some err)
       \<and> startPlugin nap r ePlugin = (Inr ap, rn)"
  then have "startPlugin nap r (fst (nep (GenerateArgs pm (Path lp)) (Path lp))) = (Inr ap, rn)"
    by simp
  with a show "publisherLoop nep nap pm n v (lp # lps) r
            = (fst (publisherLoop nep nap pm n v lps rn),
               fst (snd (publisherLoop nep nap pm n v lps rn)),
               Checked lp True # Started lp # snd (snd (publisherLoop nep nap pm n v lps rn)))"
    using publisherLoop_started [of n v lp r nap nep pm ap rn lps] by blast
qed

text \<open>
  A construction that returns the error "bad plugin path" with a handle whose process
  does not start: the handler calls \<^verbatim>\<open>startPlugin\<close> and panics with its error; the
  construction error appears nowhere.
\<close>

theorem handle_construction_error_ignored_witness:
  "HandleGomitEvent
     (\<lambda>args path. (mock_handle\<lparr>Start := Some (errors_New ''exec failed'')\<rparr>,
                     Some (errors_New ''bad plugin path'')))
     (\<lambda>resp i. Inr (mock_instance i))
     (mock_runner [mock_publisher ''/plugins/mock''] [])
     \<lparr>Body = PublisherSubscriptionEvent ''mock'' 1\<rparr>
   = (Panicked (PanicError (errors_New ''error while starting plugin: exec failed'')),
      mock_runner [mock_publisher ''/plugins/mock''] [],
      [Checked (mock_publisher ''/plugins/mock'') True,
       Started (mock_publisher ''/plugins/mock''),
       Printed (errors_New ''error while starting plugin: exec failed'')])"
  using handle_construction_error_ignored
    [where nep = "\<lambda>args path. (mock_handle\<lparr>Start := Some (errors_New ''exec failed'')\<rparr>,
                     Some (errors_New ''bad plugin path''))"
       and nap = "\<lambda>resp i. Inr (mock_instance i)"
       and r = "mock_runner [mock_publisher ''/plugins/mock''] []"
       and n = "''mock''" and v = 1 and lp = "mock_publisher ''/plugins/mock''"
       and pm = "\<lparr>LoadedPlugins = [mock_publisher ''/plugins/mock''],
                  GenerateArgs = (\<lambda>path. [])\<rparr>"
       and ePlugin = "mock_handle\<lparr>Start := Some (errors_New ''exec failed'')\<rparr>"
       and err = "errors_New ''bad plugin path''"
       and e = "errors_New ''error while starting plugin: exec failed''"
       and rn = "mock_runner [mock_publisher ''/plugins/mock''] []" and lps = "[]"]
  by (simp add: HandleGomitEvent_def newRunner_def newAvailablePlugins_def GetPluginPool_def
      checkPool_def Count_def MaximumRunningPlugins_def startPlugin_def Let_def
      is_match_def admitted_def)

end
